theory Spec2Isabelle
  imports Complex_Main
begin

section \<open>The tennis tester of HandedNotebook.ipynb\<close>

text \<open>
  The notebook is a script over module-level variables. Its code cells are embedded as
  functions over one record holding those variables; a cell or function that assigns a
  variable returns the record updated. Exceptions are values (\<open>Inl\<close> of a sum), and the
  \<^verbatim>\<open>while True\<close> loop of the tester is a partial function into \<open>option\<close>, where \<open>None\<close>
  stands for a loop that never leaves.

  \<^verbatim>\<open>is_win\<close> and \<^verbatim>\<open>build_historical_model\<close> are imported from \<^verbatim>\<open>utils\<close>, which is not
  among the sources. The classifier \<^verbatim>\<open>is_win\<close> is therefore a parameter of every function
  that calls it, and the two values returned by \<^verbatim>\<open>build_historical_model\<close>
  (\<^verbatim>\<open>Model\<close>, \<^verbatim>\<open>shots_opo_com\<close>) are fields of the record, like the two unpickled
  vocabularies.
\<close>

subsection \<open>Exceptions\<close>

datatype py_error = ValueError | IndexError | ZeroDivisionError

subsection \<open>The random generator\<close>

text \<open>
  \<^verbatim>\<open>np.random\<close> is a global generator: every call reads its state and advances it. The
  state is modelled as the stream of raw numbers still to be drawn (position \<open>0\<close> is the
  next one); a call that samples among \<open>k\<close> outcomes consumes one raw number and reduces
  it modulo \<open>k\<close>. Seeding the generator fixes the stream.
\<close>

type_synonym rng = "nat \<Rightarrow> nat"

definition advance :: "rng \<Rightarrow> rng" where
  "advance g = (\<lambda>n. g (Suc n))"

text \<open>\<^verbatim>\<open>np.random.choice(a)\<close> for a one-dimensional \<open>a\<close>; an empty \<open>a\<close> raises ValueError.\<close>

definition random_choice :: "'a list \<Rightarrow> rng \<Rightarrow> py_error + ('a \<times> rng)" where
  "random_choice a g =
     (if a = [] then Inl ValueError
      else Inr (a ! (g 0 mod length a), advance g))"

text \<open>\<^verbatim>\<open>np.random.randint(low, high)\<close>: an integer of \<open>[low, high)\<close>; ValueError when empty.\<close>

definition random_randint :: "int \<Rightarrow> int \<Rightarrow> rng \<Rightarrow> py_error + (int \<times> rng)" where
  "random_randint low high g =
     (if low \<ge> high then Inl ValueError
      else Inr (low + int (g 0) mod (high - low), advance g))"

subsection \<open>The notebook's variables\<close>

record notebook =
  poss_prompts :: "string list"
  all_shots :: "string list"
  Model :: "string list list list"
  shots_opo_com :: "string list list"
  threshold :: int
  example_policy :: "string \<rightharpoonup> string list"
  number_of_points_played :: int
  serves_opponent :: "string list"
  points_won :: int
  points_lost :: int
  current_prompt :: string
  np_random :: rng

subsection \<open>Library operations the cells use\<close>

text \<open>\<^verbatim>\<open>xs.index(x)\<close>: the first position of \<open>x\<close>, ValueError when \<open>x\<close> is not in \<open>xs\<close>.\<close>

fun list_index :: "'a list \<Rightarrow> 'a \<Rightarrow> py_error + nat" where
  "list_index [] x = Inl ValueError"
| "list_index (y # ys) x =
     (if y = x then Inr 0
      else (case list_index ys x of Inl e \<Rightarrow> Inl e | Inr i \<Rightarrow> Inr (Suc i)))"

text \<open>
  \<^verbatim>\<open>Model[i, j]\<close> on the two-dimensional array of buckets, held as a list of rows (one per
  prompt) of cells (one per shot); both indices come from \<^verbatim>\<open>index\<close> and are not negative.
  An index outside the array raises IndexError.
\<close>

definition array_at :: "'a list list \<Rightarrow> nat \<Rightarrow> nat \<Rightarrow> py_error + 'a" where
  "array_at M i j =
     (if i < length M \<and> j < length (M ! i) then Inr (M ! i ! j) else Inl IndexError)"

text \<open>\<^verbatim>\<open>d.get(k, default)\<close>\<close>

definition dict_get :: "('k \<rightharpoonup> 'v) \<Rightarrow> 'k \<Rightarrow> 'v \<Rightarrow> 'v" where
  "dict_get d k dflt = (case d k of None \<Rightarrow> dflt | Some v \<Rightarrow> v)"

subsection \<open>The transition query\<close>

text \<open>
  \<^verbatim>\<open>
  def model(prompt, shot):
      n_grams_ps = Model[poss_prompts.index(prompt), all_shots.index(shot)]
      if(len(n_grams_ps) > threshold):    # exclude rare reactions
          return np.random.choice(n_grams_ps)
      return 'n@'   # when (p, s) never happened, return unforced error in net
  \<close>
  The bucket of a pair is looked up first; \<open>n_grams_ps\<close> names that lookup.
\<close>

definition n_grams_ps :: "notebook \<Rightarrow> string \<Rightarrow> string \<Rightarrow> py_error + string list" where
  "n_grams_ps s prompt shot =
     (case list_index (poss_prompts s) prompt of
        Inl e \<Rightarrow> Inl e
      | Inr i \<Rightarrow>
          (case list_index (all_shots s) shot of
             Inl e \<Rightarrow> Inl e
           | Inr j \<Rightarrow> array_at (Model s) i j))"

definition model :: "notebook \<Rightarrow> string \<Rightarrow> string \<Rightarrow> py_error + (string \<times> notebook)" where
  "model s prompt shot =
     (case n_grams_ps s prompt shot of
        Inl e \<Rightarrow> Inl e
      | Inr bucket \<Rightarrow>
          if int (length bucket) > threshold s then
            (case random_choice bucket (np_random s) of
               Inl e \<Rightarrow> Inl e
             | Inr (v, g) \<Rightarrow> Inr (v, s\<lparr>np_random := g\<rparr>))
          else Inr (''n@'', s))"

subsection \<open>The tester cell\<close>

text \<open>
  \<^verbatim>\<open>serves_opponent = [shot for shot in [sh[0] for sh in shots_opo_com] if shot[0] in '456']\<close>
  The inner comprehension takes the first token of every record, the outer one keeps the
  tokens whose first character is 4, 5 or 6. Indexing an empty record or an empty token
  raises IndexError.
\<close>

fun first_tokens :: "'a list list \<Rightarrow> py_error + 'a list" where
  "first_tokens [] = Inr []"
| "first_tokens (sh # rest) =
     (case sh of
        [] \<Rightarrow> Inl IndexError
      | x # _ \<Rightarrow> (case first_tokens rest of Inl e \<Rightarrow> Inl e | Inr xs \<Rightarrow> Inr (x # xs)))"

fun keep_serves :: "string list \<Rightarrow> py_error + string list" where
  "keep_serves [] = Inr []"
| "keep_serves (shot # rest) =
     (case shot of
        [] \<Rightarrow> Inl IndexError
      | c # _ \<Rightarrow>
          (case keep_serves rest of
             Inl e \<Rightarrow> Inl e
           | Inr xs \<Rightarrow> Inr (if c \<in> set ''456'' then shot # xs else xs)))"

definition build_serves_opponent :: "string list list \<Rightarrow> py_error + string list" where
  "build_serves_opponent recs =
     (case first_tokens recs of Inl e \<Rightarrow> Inl e | Inr toks \<Rightarrow> keep_serves toks)"

text \<open>
  The head of the \<^verbatim>\<open>for\<close> body, "random choice on who is serving":
  \<^verbatim>\<open>
  if np.random.randint(0,2) == 0 :
      current_prompt = 'X'
  else:
      current_prompt = np.random.choice(serves_opponent)
  \<close>
\<close>

definition serving_condition :: "notebook \<Rightarrow> py_error + notebook" where
  "serving_condition s =
     (case random_randint 0 2 (np_random s) of
        Inl e \<Rightarrow> Inl e
      | Inr (b, g1) \<Rightarrow>
          if b = 0 then Inr (s\<lparr>np_random := g1, current_prompt := ''X''\<rparr>)
          else
            (case random_choice (serves_opponent s) g1 of
               Inl e \<Rightarrow> Inl e
             | Inr (p, g2) \<Rightarrow> Inr (s\<lparr>np_random := g2, current_prompt := p\<rparr>)))"

text \<open>
  The first three statements of the \<^verbatim>\<open>while True\<close> body, one turn of the rally:
  \<^verbatim>\<open>
  shot = np.random.choice(example_policy.get(current_prompt, ['5']))
  next_prompt = model(current_prompt, shot)
  current_prompt = next_prompt
  \<close>
\<close>

definition sample_shot :: "notebook \<Rightarrow> py_error + (string \<times> notebook)" where
  "sample_shot s =
     (case random_choice (dict_get (example_policy s) (current_prompt s) [''5''])
             (np_random s) of
        Inl e \<Rightarrow> Inl e
      | Inr (shot, g) \<Rightarrow> Inr (shot, s\<lparr>np_random := g\<rparr>))"

definition turn :: "notebook \<Rightarrow> py_error + notebook" where
  "turn s =
     (case sample_shot s of
        Inl e \<Rightarrow> Inl e
      | Inr (shot, s1) \<Rightarrow>
          (case model s1 (current_prompt s1) shot of
             Inl e \<Rightarrow> Inl e
           | Inr (next_prompt, s2) \<Rightarrow> Inr (s2\<lparr>current_prompt := next_prompt\<rparr>)))"

text \<open>
  The \<^verbatim>\<open>while True\<close> loop of one point. It is left by one of the two \<^verbatim>\<open>break\<close>s, after
  the matching counter was incremented, or by an exception; any other value of
  \<^verbatim>\<open>is_win\<close> starts the next turn.
  \<^verbatim>\<open>
  while True:
      <turn>
      if is_win(current_prompt) == 1:
          points_won += 1
          break
      if is_win(current_prompt) == 0:
          points_lost += 1
          break
  \<close>
\<close>

partial_function (option) point_loop ::
  "(string \<Rightarrow> int) \<Rightarrow> notebook \<Rightarrow> (py_error + notebook) option" where
  "point_loop is_win s =
     (case turn s of
        Inl e \<Rightarrow> Some (Inl e)
      | Inr s' \<Rightarrow>
          if is_win (current_prompt s') = 1
            then Some (Inr (s'\<lparr>points_won := points_won s' + 1\<rparr>))
          else if is_win (current_prompt s') = 0
            then Some (Inr (s'\<lparr>points_lost := points_lost s' + 1\<rparr>))
          else point_loop is_win s')"

text \<open>
  \<^verbatim>\<open>for num in range(number_of_points_played)\<close>, by the number of iterations left. The
  \<^verbatim>\<open>print(num, end = '\r')\<close> of the body writes to the terminal only and is left out.
\<close>

fun simulate_points ::
  "(string \<Rightarrow> int) \<Rightarrow> nat \<Rightarrow> notebook \<Rightarrow> (py_error + notebook) option" where
  "simulate_points is_win 0 s = Some (Inr s)"
| "simulate_points is_win (Suc k) s =
     (case serving_condition s of
        Inl e \<Rightarrow> Some (Inl e)
      | Inr s1 \<Rightarrow>
          (case point_loop is_win s1 of
             None \<Rightarrow> None
           | Some (Inl e) \<Rightarrow> Some (Inl e)
           | Some (Inr s2) \<Rightarrow> simulate_points is_win k s2))"

text \<open>
  \<^verbatim>\<open>points_won/(points_lost + points_won)\<close> is Python's true division of two integers; it
  raises ZeroDivisionError on a zero divisor. The quotient is taken exactly here, the
  rounding to a float is not modelled.
\<close>

definition win_rate :: "notebook \<Rightarrow> py_error + real" where
  "win_rate s =
     (if points_lost s + points_won s = 0 then Inl ZeroDivisionError
      else Inr (real_of_int (points_won s) / real_of_int (points_lost s + points_won s)))"

text \<open>
  The whole cell: build the serve list, reset the counters, play the points, report the
  win rate (the value printed after "How well are we performing?").
\<close>

definition tester :: "(string \<Rightarrow> int) \<Rightarrow> notebook \<Rightarrow> (py_error + (real \<times> notebook)) option" where
  "tester is_win s =
     (case build_serves_opponent (shots_opo_com s) of
        Inl e \<Rightarrow> Some (Inl e)
      | Inr serves \<Rightarrow>
          (case simulate_points is_win (nat (number_of_points_played s))
                  (s\<lparr>serves_opponent := serves, points_won := 0, points_lost := 0\<rparr>) of
             None \<Rightarrow> None
           | Some (Inl e) \<Rightarrow> Some (Inl e)
           | Some (Inr s') \<Rightarrow>
               (case win_rate s' of
                  Inl e \<Rightarrow> Some (Inl e)
                | Inr r \<Rightarrow> Some (Inr (r, s')))))"

subsection \<open>Vocabulary of the statements\<close>

text \<open>
  The shape the builder gives the table: one row per possible prompt, one cell per allowed
  shot in every row.
\<close>

definition well_shaped :: "notebook \<Rightarrow> bool" where
  "well_shaped s \<longleftrightarrow>
     length (Model s) = length (poss_prompts s) \<and>
     list_all (\<lambda>row. length row = length (all_shots s)) (Model s)"

text \<open>The variables that hold the tables, the vocabularies and the configuration.\<close>

definition tables_kept :: "notebook \<Rightarrow> notebook \<Rightarrow> bool" where
  "tables_kept s s' \<longleftrightarrow>
     poss_prompts s' = poss_prompts s \<and> all_shots s' = all_shots s \<and>
     Model s' = Model s \<and> shots_opo_com s' = shots_opo_com s \<and>
     threshold s' = threshold s \<and> example_policy s' = example_policy s \<and>
     number_of_points_played s' = number_of_points_played s \<and>
     serves_opponent s' = serves_opponent s"

text \<open>What one finished point leaves behind: the tables as they were, and one counter up by one.\<close>

definition point_post :: "(string \<Rightarrow> int) \<Rightarrow> notebook \<Rightarrow> notebook \<Rightarrow> bool" where
  "point_post is_win s s' \<longleftrightarrow>
     tables_kept s s' \<and>
     (points_won s' = points_won s + 1 \<and> points_lost s' = points_lost s \<and>
        is_win (current_prompt s') = 1 \<or>
      points_won s' = points_won s \<and> points_lost s' = points_lost s + 1 \<and>
        is_win (current_prompt s') = 0)"

subsection \<open>A small table for concrete runs\<close>

text \<open>
  A seven-prompt, two-shot table with the notebook's example policy and threshold, in the
  state a run of the tester cell leaves the serve list in. Since
  \<^verbatim>\<open>utils.is_win\<close> is not among the sources, concrete runs use a stand-in classifier that
  ends a point on the bare tokens \<open>*\<close> and \<open>@\<close> only; the theorems hold for every classifier.
\<close>

definition fixture_is_win :: "string \<Rightarrow> int" where
  "fixture_is_win t = (if t = ''*'' then 1 else if t = ''@'' then 0 else - 1)"

definition fixture_nb :: "rng \<Rightarrow> notebook" where
  "fixture_nb g =
     \<lparr> poss_prompts = [''X'', ''5'', ''6'', ''f1'', ''*'', ''@'', ''n@''],
       all_shots = [''5'', ''f1''],
       Model = [ [[''f1'', ''f1'', ''*''], []],
                 [[''@'', ''@''], [''n@'', ''n@'']],
                 [[''@'', ''*''], []],
                 [[], [''f1'', ''f1'']],
                 [[], []], [[], []], [[], []] ],
       shots_opo_com = [[''5'', ''f1''], [''b2''], [''6'']],
       threshold = 1,
       example_policy = [''f3'' \<mapsto> [''b2'', ''b2'', ''b3'', ''v1''], ''f1'' \<mapsto> [''f1'']],
       number_of_points_played = 2,
       serves_opponent = [''5'', ''6''],
       points_won = 0,
       points_lost = 0,
       current_prompt = ''X'',
       np_random = g \<rparr>"

section \<open>Auxiliary facts\<close>

lemma list_index_notin: "x \<notin> set xs \<Longrightarrow> list_index xs x = Inl ValueError"
  by (induction xs) auto

lemma list_index_in: "x \<in> set xs \<Longrightarrow> \<exists>i. list_index xs x = Inr i \<and> i < length xs"
  by (induction xs) auto

lemma array_at_in:
  "i < length M \<Longrightarrow> list_all (\<lambda>row. length row = n) M \<Longrightarrow> j < n \<Longrightarrow>
     array_at M i j = Inr (M ! i ! j)"
  by (simp add: array_at_def list_all_length)

lemma n_grams_ps_total:
  assumes "well_shaped s" "prompt \<in> set (poss_prompts s)" "shot \<in> set (all_shots s)"
  shows "\<exists>b. n_grams_ps s prompt shot = Inr b"
proof -
  obtain i where i: "list_index (poss_prompts s) prompt = Inr i" "i < length (poss_prompts s)"
    using list_index_in [OF assms(2)] by blast
  obtain j where j: "list_index (all_shots s) shot = Inr j" "j < length (all_shots s)"
    using list_index_in [OF assms(3)] by blast
  from assms(1) i(2) have "i < length (Model s)"
    and "list_all (\<lambda>row. length row = length (all_shots s)) (Model s)"
    by (simp_all add: well_shaped_def)
  then have "array_at (Model s) i j = Inr (Model s ! i ! j)"
    using j(2) by (rule array_at_in)
  with i(1) j(1) show ?thesis
    by (simp add: n_grams_ps_def)
qed

lemma random_choice_nonempty:
  "a \<noteq> [] \<Longrightarrow> random_choice a g = Inr (a ! (g 0 mod length a), advance g)"
  by (simp add: random_choice_def)

lemma model_total:
  assumes "well_shaped s" "prompt \<in> set (poss_prompts s)" "shot \<in> set (all_shots s)"
    and "0 \<le> threshold s"
  shows "\<exists>v s'. model s prompt shot = Inr (v, s')"
proof -
  obtain b where b: "n_grams_ps s prompt shot = Inr b"
    using n_grams_ps_total [OF assms(1-3)] by blast
  show ?thesis
  proof (cases "int (length b) > threshold s")
    case True
    with assms(4) have "b \<noteq> []" by auto
    with b True show ?thesis
      by (simp add: model_def random_choice_nonempty)
  next
    case False
    with b show ?thesis by (simp add: model_def)
  qed
qed

lemma model_shot_not_allowed:
  "shot \<notin> set (all_shots s) \<Longrightarrow> model s prompt shot = Inl ValueError"
  by (cases "prompt \<in> set (poss_prompts s)")
     (auto simp: model_def n_grams_ps_def list_index_notin dest: list_index_in)

lemma tables_kept_trans: "tables_kept s t \<Longrightarrow> tables_kept t u \<Longrightarrow> tables_kept s u"
  by (simp add: tables_kept_def)

lemma model_effect:
  "model s prompt shot = Inr (v, s') \<Longrightarrow>
     tables_kept s s' \<and> points_won s' = points_won s \<and> points_lost s' = points_lost s"
  by (auto simp: model_def tables_kept_def split: sum.splits if_splits)

lemma sample_shot_effect:
  "sample_shot s = Inr (shot, s') \<Longrightarrow>
     tables_kept s s' \<and> points_won s' = points_won s \<and> points_lost s' = points_lost s"
  by (auto simp: sample_shot_def tables_kept_def split: sum.splits)

lemma turn_effect:
  assumes "turn s = Inr s'"
  shows "tables_kept s s' \<and> points_won s' = points_won s \<and> points_lost s' = points_lost s"
proof -
  from assms obtain shot s1 v s2 where 1: "sample_shot s = Inr (shot, s1)"
    and 2: "model s1 (current_prompt s1) shot = Inr (v, s2)"
    and 3: "s' = s2\<lparr>current_prompt := v\<rparr>"
    by (auto simp: turn_def split: sum.splits)
  from 3 have "tables_kept s2 s'" "points_won s' = points_won s2" "points_lost s' = points_lost s2"
    by (simp_all add: tables_kept_def)
  with sample_shot_effect [OF 1] model_effect [OF 2] show ?thesis
    by (metis tables_kept_trans)
qed

lemma serving_condition_effect:
  "serving_condition s = Inr s' \<Longrightarrow>
     tables_kept s s' \<and> points_won s' = points_won s \<and> points_lost s' = points_lost s"
  by (auto simp: serving_condition_def tables_kept_def split: sum.splits if_splits)

lemma point_post_step:
  assumes "tables_kept s s1" "points_won s1 = points_won s" "points_lost s1 = points_lost s"
    and "point_post is_win s1 s'"
  shows "point_post is_win s s'"
  using assms by (simp add: point_post_def tables_kept_def)

lemma point_loop_effect:
  assumes "point_loop is_win s = Some r"
  shows "\<forall>s'. r = Inr s' \<longrightarrow> point_post is_win s s'"
proof (rule point_loop.raw_induct
    [where P = "\<lambda>is_win s r. \<forall>s'. r = Inr s' \<longrightarrow> point_post is_win s s'", OF _ assms])
  fix f :: "(string \<Rightarrow> int) \<Rightarrow> notebook \<Rightarrow> (py_error + notebook) option"
    and is_win :: "string \<Rightarrow> int" and s :: notebook and r :: "py_error + notebook"
  assume IH: "\<And>iw t y. f iw t = Some y \<Longrightarrow> \<forall>s'. y = Inr s' \<longrightarrow> point_post iw t s'"
  assume body: "(case turn s of
        Inl e \<Rightarrow> Some (Inl e)
      | Inr s' \<Rightarrow>
          if is_win (current_prompt s') = 1
            then Some (Inr (s'\<lparr>points_won := points_won s' + 1\<rparr>))
          else if is_win (current_prompt s') = 0
            then Some (Inr (s'\<lparr>points_lost := points_lost s' + 1\<rparr>))
          else f is_win s') = Some r"
  show "\<forall>s'. r = Inr s' \<longrightarrow> point_post is_win s s'"
  proof (intro allI impI)
    fix s' assume r: "r = Inr s'"
    from body r obtain s1 where t: "turn s = Inr s1"
      by (cases "turn s") auto
    note e = turn_effect [OF t]
    from body t r have unfolded:
      "(if is_win (current_prompt s1) = 1
          then Some (Inr (s1\<lparr>points_won := points_won s1 + 1\<rparr>))
        else if is_win (current_prompt s1) = 0
          then Some (Inr (s1\<lparr>points_lost := points_lost s1 + 1\<rparr>))
        else f is_win s1) = Some (Inr s')"
      by simp
    have "point_post is_win s1 s'"
    proof (cases "is_win (current_prompt s1) = 1")
      case True
      with unfolded have "s' = s1\<lparr>points_won := points_won s1 + 1\<rparr>" by simp
      with True show ?thesis by (simp add: point_post_def tables_kept_def)
    next
      case False
      show ?thesis
      proof (cases "is_win (current_prompt s1) = 0")
        case True
        with False unfolded have "s' = s1\<lparr>points_lost := points_lost s1 + 1\<rparr>" by simp
        with True show ?thesis by (simp add: point_post_def tables_kept_def)
      next
        case nz: False
        with False unfolded have "f is_win s1 = Some (Inr s')" by simp
        from IH [OF this] show ?thesis by simp
      qed
    qed
    with e show "point_post is_win s s'"
      by (blast intro: point_post_step)
  qed
qed

lemma simulate_points_effect:
  "simulate_points is_win k s = Some (Inr s') \<Longrightarrow>
     tables_kept s s' \<and> points_won s \<le> points_won s' \<and> points_lost s \<le> points_lost s' \<and>
     points_won s' + points_lost s' = points_won s + points_lost s + int k"
proof (induction k arbitrary: s)
  case 0
  then show ?case by (simp add: tables_kept_def)
next
  case (Suc k)
  from Suc.prems obtain s1 where a: "serving_condition s = Inr s1"
    by (cases "serving_condition s") auto
  with Suc.prems obtain s2 where b: "point_loop is_win s1 = Some (Inr s2)"
    and c: "simulate_points is_win k s2 = Some (Inr s')"
    by (auto split: sum.splits option.splits)
  from point_loop_effect [OF b] have "point_post is_win s1 s2" by simp
  with serving_condition_effect [OF a] have "point_post is_win s s2"
    by (blast intro: point_post_step)
  with Suc.IH [OF c] show ?case
    by (auto simp: tables_kept_def point_post_def)
qed

subsection \<open>Unfolding the point loop\<close>

lemma point_loop_raise: "turn s = Inl e \<Longrightarrow> point_loop is_win s = Some (Inl e)"
  by (subst point_loop.simps) simp

lemma point_loop_won:
  "turn s = Inr s1 \<Longrightarrow> is_win (current_prompt s1) = 1 \<Longrightarrow>
     point_loop is_win s = Some (Inr (s1\<lparr>points_won := points_won s1 + 1\<rparr>))"
  by (subst point_loop.simps) simp

lemma point_loop_lost:
  "turn s = Inr s1 \<Longrightarrow> is_win (current_prompt s1) \<noteq> 1 \<Longrightarrow> is_win (current_prompt s1) = 0 \<Longrightarrow>
     point_loop is_win s = Some (Inr (s1\<lparr>points_lost := points_lost s1 + 1\<rparr>))"
  by (subst point_loop.simps) simp

lemma point_loop_continue:
  "turn s = Inr s1 \<Longrightarrow> is_win (current_prompt s1) \<noteq> 1 \<Longrightarrow> is_win (current_prompt s1) \<noteq> 0 \<Longrightarrow>
     point_loop is_win s = point_loop is_win s1"
  by (subst point_loop.simps) simp

lemma point_loop_cycle:
  assumes t: "turn c = Inr c"
    and n1: "is_win (current_prompt c) \<noteq> 1" and n0: "is_win (current_prompt c) \<noteq> 0"
  shows "point_loop is_win c = None"
proof (rule ccontr)
  assume "point_loop is_win c \<noteq> None"
  then obtain r where r: "point_loop is_win c = Some r" by blast
  have "\<not> (is_win = is_win \<and> c = c)"
  proof (rule point_loop.raw_induct
      [where P = "\<lambda>iw s y. \<not> (iw = is_win \<and> s = c)", OF _ r])
    fix f :: "(string \<Rightarrow> int) \<Rightarrow> notebook \<Rightarrow> (py_error + notebook) option"
      and iw :: "string \<Rightarrow> int" and s :: notebook and y :: "py_error + notebook"
    assume IH: "\<And>iw t y. f iw t = Some y \<Longrightarrow> \<not> (iw = is_win \<and> t = c)"
    assume body: "(case turn s of
        Inl e \<Rightarrow> Some (Inl e)
      | Inr s' \<Rightarrow>
          if iw (current_prompt s') = 1
            then Some (Inr (s'\<lparr>points_won := points_won s' + 1\<rparr>))
          else if iw (current_prompt s') = 0
            then Some (Inr (s'\<lparr>points_lost := points_lost s' + 1\<rparr>))
          else f iw s') = Some y"
    show "\<not> (iw = is_win \<and> s = c)"
    proof
      assume "iw = is_win \<and> s = c"
      with body t n1 n0 have "f is_win c = Some y" by simp
      from IH [OF this] show False by simp
    qed
  qed
  then show False by simp
qed

subsection \<open>Runs on the small table\<close>

lemma fixture_serves:
  "build_serves_opponent (shots_opo_com (fixture_nb g)) = Inr [''5'', ''6'']"
  by (simp add: build_serves_opponent_def fixture_nb_def)

lemma fixture_well_shaped: "well_shaped (fixture_nb g)"
  by (simp add: well_shaped_def fixture_nb_def)

lemma fixture_serving_1:
  "serving_condition (fixture_nb (\<lambda>n. n)) = Inr (fixture_nb (\<lambda>n. Suc n))"
  by (simp add: serving_condition_def random_randint_def advance_def fixture_nb_def)

lemma fixture_turn_1:
  "turn (fixture_nb (\<lambda>n. Suc n)) =
     Inr (fixture_nb (\<lambda>n. Suc (Suc (Suc n)))\<lparr>current_prompt := ''*''\<rparr>)"
  by (simp add: turn_def sample_shot_def dict_get_def model_def n_grams_ps_def array_at_def
      random_choice_def advance_def fixture_nb_def)

lemma fixture_point_1:
  "point_loop fixture_is_win (fixture_nb (\<lambda>n. Suc n)) =
     Some (Inr (fixture_nb (\<lambda>n. Suc (Suc (Suc n)))\<lparr>current_prompt := ''*'', points_won := 1\<rparr>))"
  by (simp add: point_loop_won [OF fixture_turn_1] fixture_is_win_def) (simp add: fixture_nb_def)

lemma fixture_serving_2:
  "serving_condition (fixture_nb (\<lambda>n. Suc (Suc (Suc n)))\<lparr>current_prompt := ''*'', points_won := 1\<rparr>) =
     Inr (fixture_nb (\<lambda>n. Suc (Suc (Suc (Suc (Suc n)))))\<lparr>current_prompt := ''5'', points_won := 1\<rparr>)"
  by (simp add: serving_condition_def random_randint_def random_choice_def advance_def fixture_nb_def
      mod_Suc)

lemma fixture_turn_2:
  "turn (fixture_nb (\<lambda>n. Suc (Suc (Suc (Suc (Suc n)))))\<lparr>current_prompt := ''5'', points_won := 1\<rparr>) =
     Inr (fixture_nb (\<lambda>n. Suc (Suc (Suc (Suc (Suc (Suc (Suc n)))))))
            \<lparr>current_prompt := ''@'', points_won := 1\<rparr>)"
  by (simp add: turn_def sample_shot_def dict_get_def model_def n_grams_ps_def array_at_def
      random_choice_def advance_def fixture_nb_def mod_Suc)

lemma fixture_point_2:
  "point_loop fixture_is_win
     (fixture_nb (\<lambda>n. Suc (Suc (Suc (Suc (Suc n)))))\<lparr>current_prompt := ''5'', points_won := 1\<rparr>) =
     Some (Inr (fixture_nb (\<lambda>n. Suc (Suc (Suc (Suc (Suc (Suc (Suc n)))))))
            \<lparr>current_prompt := ''@'', points_won := 1, points_lost := 1\<rparr>))"
  by (simp add: point_loop_lost [OF fixture_turn_2] fixture_is_win_def) (simp add: fixture_nb_def)

lemma fixture_run:
  "simulate_points fixture_is_win 2 (fixture_nb (\<lambda>n. n)) =
     Some (Inr (fixture_nb (\<lambda>n. Suc (Suc (Suc (Suc (Suc (Suc (Suc n)))))))
            \<lparr>current_prompt := ''@'', points_won := 1, points_lost := 1\<rparr>))"
  by (simp add: eval_nat_numeral fixture_serving_1 fixture_point_1 fixture_serving_2
      fixture_point_2)

lemma fixture_reset:
  "fixture_nb g\<lparr>serves_opponent := [''5'', ''6''], points_won := 0, points_lost := 0\<rparr> =
     fixture_nb g"
  by (simp add: fixture_nb_def)

lemma fixture_rally_turn_1:
  "turn (fixture_nb (\<lambda>n. 0)) = Inr (fixture_nb (\<lambda>n. 0)\<lparr>current_prompt := ''f1''\<rparr>)"
  by (simp add: turn_def sample_shot_def dict_get_def model_def n_grams_ps_def array_at_def
      random_choice_def advance_def fixture_nb_def)

lemma fixture_rally_turn_2:
  "turn (fixture_nb (\<lambda>n. 0)\<lparr>current_prompt := ''f1''\<rparr>) =
     Inr (fixture_nb (\<lambda>n. 0)\<lparr>current_prompt := ''f1''\<rparr>)"
  by (simp add: turn_def sample_shot_def dict_get_def model_def n_grams_ps_def array_at_def
      random_choice_def advance_def fixture_nb_def)

section \<open>The transition query\<close>

text \<open>
  C1. A shot that is not in the allowed-shots vocabulary should not make the transition
  query fail: the query should answer with the net-error fallback, and the tester should
  carry on. The code looks the shot up with \<^verbatim>\<open>all_shots.index(shot)\<close> before anything
  else, and that raises ValueError for such a shot: on the small table, the query for the
  shot \<open>zz\<close> raises, and so does the whole tester when the policy answers \<open>X\<close> with \<open>zz\<close>.
\<close>

theorem model_unknown_shot_raises:
  "model (fixture_nb (\<lambda>n. 0)) ''X'' ''zz'' = Inl ValueError \<and>
   tester fixture_is_win (fixture_nb (\<lambda>n. 0)\<lparr>example_policy := [''X'' \<mapsto> [''zz'']]\<rparr>) =
     Some (Inl ValueError)"
proof
  show "model (fixture_nb (\<lambda>n. 0)) ''X'' ''zz'' = Inl ValueError"
    by (rule model_shot_not_allowed) (simp add: fixture_nb_def)
  have "turn (fixture_nb (\<lambda>n. 0)\<lparr>example_policy := [''X'' \<mapsto> [''zz'']]\<rparr>) = Inl ValueError"
    by (simp add: turn_def sample_shot_def dict_get_def random_choice_def
        model_shot_not_allowed fixture_nb_def)
  then have "point_loop fixture_is_win
      (fixture_nb (\<lambda>n. 0)\<lparr>example_policy := [''X'' \<mapsto> [''zz'']]\<rparr>) = Some (Inl ValueError)"
    by (rule point_loop_raise)
  moreover have "serving_condition
      (fixture_nb (\<lambda>n. 0)\<lparr>example_policy := [''X'' \<mapsto> [''zz'']]\<rparr>) =
      Inr (fixture_nb (\<lambda>n. 0)\<lparr>example_policy := [''X'' \<mapsto> [''zz'']]\<rparr>)"
    by (simp add: serving_condition_def random_randint_def advance_def fixture_nb_def)
  ultimately show "tester fixture_is_win
      (fixture_nb (\<lambda>n. 0)\<lparr>example_policy := [''X'' \<mapsto> [''zz'']]\<rparr>) = Some (Inl ValueError)"
    by (simp add: tester_def build_serves_opponent_def fixture_nb_def eval_nat_numeral)
qed

text \<open>
  C2. When the bucket of a pair is empty and the threshold is not negative, the query
  returns the fallback token \<open>n@\<close>; it draws nothing, so the answer is the same in every
  state of the generator, and the notebook is left as it was.
\<close>

theorem model_unseen_fallback:
  assumes "n_grams_ps s prompt shot = Inr []" and "0 \<le> threshold s"
  shows "model s prompt shot = Inr (''n@'', s)"
  using assms by (simp add: model_def)

theorem model_unseen_fallback_witness:
  "n_grams_ps (fixture_nb (\<lambda>n. n)) ''X'' ''f1'' = Inr [] \<and>
   0 \<le> threshold (fixture_nb (\<lambda>n. n)) \<and>
   model (fixture_nb (\<lambda>n. n)) ''X'' ''f1'' = Inr (''n@'', fixture_nb (\<lambda>n. n))"
proof -
  have a: "n_grams_ps (fixture_nb (\<lambda>n. n)) ''X'' ''f1'' = Inr []"
    by (simp add: n_grams_ps_def array_at_def fixture_nb_def)
  have b: "0 \<le> threshold (fixture_nb (\<lambda>n. n))"
    by (simp add: fixture_nb_def)
  show ?thesis
    by (intro conjI a b model_unseen_fallback [OF a b])
qed

text \<open>
  C3, as stated: whenever the bucket is longer than the threshold, the query returns a
  member of the bucket and never the fallback token. Two runs on the small table refute
  it. With threshold \<open>-1\<close> the empty bucket of \<open>(X, f1)\<close> is longer than the threshold, and
  the draw from it raises ValueError. With the notebook's threshold \<open>1\<close> the bucket of
  \<open>(5, f1)\<close> holds the recorded continuation \<open>n@\<close> twice, and the query returns \<open>n@\<close>, the
  very token of the fallback.
\<close>

theorem model_frequent_counterexample:
  "n_grams_ps (fixture_nb (\<lambda>n. 0)\<lparr>threshold := - 1\<rparr>) ''X'' ''f1'' = Inr [] \<and>
   int (length ([] :: string list)) > threshold (fixture_nb (\<lambda>n. 0)\<lparr>threshold := - 1\<rparr>) \<and>
   model (fixture_nb (\<lambda>n. 0)\<lparr>threshold := - 1\<rparr>) ''X'' ''f1'' = Inl ValueError \<and>
   n_grams_ps (fixture_nb (\<lambda>n. 0)) ''5'' ''f1'' = Inr [''n@'', ''n@''] \<and>
   int (length [''n@'', ''n@'']) > threshold (fixture_nb (\<lambda>n. 0)) \<and>
   model (fixture_nb (\<lambda>n. 0)) ''5'' ''f1'' = Inr (''n@'', fixture_nb (\<lambda>n. 0))"
  by (simp add: model_def n_grams_ps_def array_at_def random_choice_def advance_def
      fixture_nb_def)

text \<open>
  C3, amended: whenever the bucket is not empty and longer than the threshold, the query
  returns the element of the bucket that its draw selects, a member of that bucket, and
  advances the generator by that one draw. The sampling branch is taken, not the
  fallback; the answer is \<open>n@\<close> only if \<open>n@\<close> is the recorded continuation drawn.
\<close>

theorem model_frequent_draw:
  assumes "n_grams_ps s prompt shot = Inr bucket"
    and "bucket \<noteq> []"
    and "int (length bucket) > threshold s"
  shows "model s prompt shot =
           Inr (bucket ! (np_random s 0 mod length bucket),
                s\<lparr>np_random := advance (np_random s)\<rparr>) \<and>
         bucket ! (np_random s 0 mod length bucket) \<in> set bucket"
  using assms by (simp add: model_def random_choice_nonempty)

theorem model_frequent_draw_witness:
  "n_grams_ps (fixture_nb (\<lambda>n. Suc (Suc 0))) ''X'' ''5'' = Inr [''f1'', ''f1'', ''*''] \<and>
   [''f1'', ''f1'', ''*''] \<noteq> [] \<and>
   int (length [''f1'', ''f1'', ''*'']) > threshold (fixture_nb (\<lambda>n. Suc (Suc 0))) \<and>
   model (fixture_nb (\<lambda>n. Suc (Suc 0))) ''X'' ''5'' = Inr (''*'', fixture_nb (\<lambda>n. Suc (Suc 0))) \<and>
   ''*'' \<in> set [''f1'', ''f1'', ''*'']"
proof -
  have a: "n_grams_ps (fixture_nb (\<lambda>n. Suc (Suc 0))) ''X'' ''5'' = Inr [''f1'', ''f1'', ''*'']"
    by (simp add: n_grams_ps_def array_at_def fixture_nb_def)
  have b: "[''f1'', ''f1'', ''*''] \<noteq> []"
    by simp
  have c: "int (length [''f1'', ''f1'', ''*'']) > threshold (fixture_nb (\<lambda>n. Suc (Suc 0)))"
    by (simp add: fixture_nb_def)
  have d: "[''f1'', ''f1'', ''*''] ! (np_random (fixture_nb (\<lambda>n. Suc (Suc 0))) 0 mod
             length [''f1'', ''f1'', ''*'']) = ''*''"
    by (simp add: fixture_nb_def mod_Suc)
  have e: "fixture_nb (\<lambda>n. Suc (Suc 0))\<lparr>np_random := advance (np_random (fixture_nb (\<lambda>n. Suc (Suc 0))))\<rparr> =
             fixture_nb (\<lambda>n. Suc (Suc 0))"
    by (simp add: fixture_nb_def advance_def)
  note r = model_frequent_draw [OF a b c, unfolded d e]
  show ?thesis
    by (intro conjI a b c conjunct1 [OF r] conjunct2 [OF r])
qed

section \<open>One point\<close>

text \<open>
  C5. When the policy has no entry for the current prompt, sampling the shot does not
  fail: the shot is drawn from the one-element list \<open>['5']\<close>, so it is \<open>5\<close> (one draw is
  consumed), and the turn is the transition query for the current prompt and that shot.
  On a table of the builder's shape whose vocabularies hold the prompt and the shot \<open>5\<close>,
  with a threshold that is not negative, the turn yields a next prompt.
\<close>

theorem missing_policy_entry_default:
  assumes "example_policy s (current_prompt s) = None"
  shows "sample_shot s = Inr (''5'', s\<lparr>np_random := advance (np_random s)\<rparr>) \<and>
         turn s =
           (case model (s\<lparr>np_random := advance (np_random s)\<rparr>) (current_prompt s) ''5'' of
              Inl e \<Rightarrow> Inl e
            | Inr (next_prompt, s2) \<Rightarrow> Inr (s2\<lparr>current_prompt := next_prompt\<rparr>)) \<and>
         (well_shaped s \<and> current_prompt s \<in> set (poss_prompts s) \<and>
          ''5'' \<in> set (all_shots s) \<and> 0 \<le> threshold s \<longrightarrow> (\<exists>s'. turn s = Inr s'))"
proof -
  let ?s1 = "s\<lparr>np_random := advance (np_random s)\<rparr>"
  from assms have shot: "sample_shot s = Inr (''5'', ?s1)"
    by (simp add: sample_shot_def dict_get_def random_choice_def)
  then have t: "turn s =
      (case model ?s1 (current_prompt s) ''5'' of
         Inl e \<Rightarrow> Inl e
       | Inr (next_prompt, s2) \<Rightarrow> Inr (s2\<lparr>current_prompt := next_prompt\<rparr>))"
    by (simp add: turn_def)
  have "\<exists>s'. turn s = Inr s'"
    if "well_shaped s \<and> current_prompt s \<in> set (poss_prompts s) \<and>
        ''5'' \<in> set (all_shots s) \<and> 0 \<le> threshold s"
  proof -
    from that have "well_shaped ?s1" "current_prompt s \<in> set (poss_prompts ?s1)"
      "''5'' \<in> set (all_shots ?s1)" "0 \<le> threshold ?s1"
      by (simp_all add: well_shaped_def)
    from model_total [OF this] obtain v s2
      where "model ?s1 (current_prompt s) ''5'' = Inr (v, s2)" by blast
    with t show ?thesis by simp
  qed
  with shot t show ?thesis by blast
qed

theorem missing_policy_entry_default_witness:
  "example_policy (fixture_nb (\<lambda>n. 0)) (current_prompt (fixture_nb (\<lambda>n. 0))) = None \<and>
   sample_shot (fixture_nb (\<lambda>n. 0)) = Inr (''5'', fixture_nb (\<lambda>n. 0)) \<and>
   well_shaped (fixture_nb (\<lambda>n. 0)) \<and>
   current_prompt (fixture_nb (\<lambda>n. 0)) \<in> set (poss_prompts (fixture_nb (\<lambda>n. 0))) \<and>
   ''5'' \<in> set (all_shots (fixture_nb (\<lambda>n. 0))) \<and>
   0 \<le> threshold (fixture_nb (\<lambda>n. 0)) \<and>
   (\<exists>s'. turn (fixture_nb (\<lambda>n. 0)) = Inr s')"
proof -
  have a: "example_policy (fixture_nb (\<lambda>n. 0)) (current_prompt (fixture_nb (\<lambda>n. 0))) = None"
    by (simp add: fixture_nb_def)
  have e: "fixture_nb (\<lambda>n. 0)\<lparr>np_random := advance (np_random (fixture_nb (\<lambda>n. 0)))\<rparr> =
             fixture_nb (\<lambda>n. 0)"
    by (simp add: fixture_nb_def advance_def)
  have w: "well_shaped (fixture_nb (\<lambda>n. 0))"
    by (rule fixture_well_shaped)
  have p: "current_prompt (fixture_nb (\<lambda>n. 0)) \<in> set (poss_prompts (fixture_nb (\<lambda>n. 0)))"
    by (simp add: fixture_nb_def)
  have q: "''5'' \<in> set (all_shots (fixture_nb (\<lambda>n. 0)))"
    by (simp add: fixture_nb_def)
  have h: "0 \<le> threshold (fixture_nb (\<lambda>n. 0))"
    by (simp add: fixture_nb_def)
  note r = missing_policy_entry_default [OF a, unfolded e]
  from r have x: "\<exists>s'. turn (fixture_nb (\<lambda>n. 0)) = Inr s'"
    using w p q h by (intro mp [OF conjunct2 [OF conjunct2 [OF r]]] conjI)
  show ?thesis
    by (intro conjI a conjunct1 [OF r] w p q h x)
qed

text \<open>
  C6, as stated: the loop of one point stops after a bounded number of turns, whatever the
  policy and the starting prompt. The loop is \<^verbatim>\<open>while True\<close> with two \<^verbatim>\<open>break\<close>s and
  no count of turns. On the small table, with a generator that always draws 0, the point
  that starts at \<open>X\<close> is answered \<open>5\<close>, then \<open>f1\<close> by the table, and from there the example
  policy answers \<open>f1\<close> with \<open>f1\<close> and the table answers \<open>(f1, f1)\<close> with \<open>f1\<close>: with a
  classifier for which \<open>f1\<close> ends nothing, the loop never leaves.
\<close>

theorem point_loop_unbounded_counterexample:
  "point_loop fixture_is_win (fixture_nb (\<lambda>n. 0)) = None"
proof -
  have "point_loop fixture_is_win (fixture_nb (\<lambda>n. 0)) =
          point_loop fixture_is_win (fixture_nb (\<lambda>n. 0)\<lparr>current_prompt := ''f1''\<rparr>)"
    by (rule point_loop_continue [OF fixture_rally_turn_1]) (simp_all add: fixture_is_win_def)
  also have "\<dots> = None"
    by (rule point_loop_cycle [OF fixture_rally_turn_2]) (simp_all add: fixture_is_win_def)
  finally show ?thesis .
qed

text \<open>
  C6, amended: the loop of one point has no turn cap. It is left only when \<^verbatim>\<open>is_win\<close>
  gives 1 or 0 for the new prompt (or by an exception): when it returns, the current prompt
  is classified 1 or 0; and a turn whose new prompt is classified neither is followed by
  the loop from that prompt, however many turns came before.
\<close>

theorem point_loop_leaves_only_on_terminal:
  "(point_loop is_win s = Some (Inr s') \<longrightarrow>
      is_win (current_prompt s') = 1 \<or> is_win (current_prompt s') = 0) \<and>
   (turn s = Inr s1 \<and> is_win (current_prompt s1) \<noteq> 1 \<and> is_win (current_prompt s1) \<noteq> 0 \<longrightarrow>
      point_loop is_win s = point_loop is_win s1)"
proof (intro conjI impI)
  assume "point_loop is_win s = Some (Inr s')"
  from point_loop_effect [OF this] have "point_post is_win s s'" by simp
  then show "is_win (current_prompt s') = 1 \<or> is_win (current_prompt s') = 0"
    by (auto simp: point_post_def)
next
  assume "turn s = Inr s1 \<and> is_win (current_prompt s1) \<noteq> 1 \<and> is_win (current_prompt s1) \<noteq> 0"
  then show "point_loop is_win s = point_loop is_win s1"
    by (simp add: point_loop_continue)
qed

theorem point_loop_leaves_only_on_terminal_witness:
  "point_loop fixture_is_win (fixture_nb (\<lambda>n. Suc n)) =
     Some (Inr (fixture_nb (\<lambda>n. Suc (Suc (Suc n)))\<lparr>current_prompt := ''*'', points_won := 1\<rparr>)) \<and>
   fixture_is_win (current_prompt
     (fixture_nb (\<lambda>n. Suc (Suc (Suc n)))\<lparr>current_prompt := ''*'', points_won := 1\<rparr>)) = 1 \<and>
   turn (fixture_nb (\<lambda>n. 0)) = Inr (fixture_nb (\<lambda>n. 0)\<lparr>current_prompt := ''f1''\<rparr>) \<and>
   fixture_is_win (current_prompt (fixture_nb (\<lambda>n. 0)\<lparr>current_prompt := ''f1''\<rparr>)) \<noteq> 1 \<and>
   fixture_is_win (current_prompt (fixture_nb (\<lambda>n. 0)\<lparr>current_prompt := ''f1''\<rparr>)) \<noteq> 0 \<and>
   point_loop fixture_is_win (fixture_nb (\<lambda>n. 0)) =
     point_loop fixture_is_win (fixture_nb (\<lambda>n. 0)\<lparr>current_prompt := ''f1''\<rparr>)"
proof -
  have n1: "fixture_is_win (current_prompt (fixture_nb (\<lambda>n. 0)\<lparr>current_prompt := ''f1''\<rparr>)) \<noteq> 1"
    by (simp add: fixture_is_win_def)
  have n0: "fixture_is_win (current_prompt (fixture_nb (\<lambda>n. 0)\<lparr>current_prompt := ''f1''\<rparr>)) \<noteq> 0"
    by (simp add: fixture_is_win_def)
  have w: "fixture_is_win (current_prompt
     (fixture_nb (\<lambda>n. Suc (Suc (Suc n)))\<lparr>current_prompt := ''*'', points_won := 1\<rparr>)) = 1"
    by (simp add: fixture_is_win_def)
  note r = point_loop_leaves_only_on_terminal
    [of fixture_is_win "fixture_nb (\<lambda>n. 0)" _ "fixture_nb (\<lambda>n. 0)\<lparr>current_prompt := ''f1''\<rparr>"]
  have c: "point_loop fixture_is_win (fixture_nb (\<lambda>n. 0)) =
     point_loop fixture_is_win (fixture_nb (\<lambda>n. 0)\<lparr>current_prompt := ''f1''\<rparr>)"
    by (intro mp [OF conjunct2 [OF r]] conjI fixture_rally_turn_1 n1 n0)
  note r' = point_loop_leaves_only_on_terminal
    [of fixture_is_win "fixture_nb (\<lambda>n. Suc n)"
      "fixture_nb (\<lambda>n. Suc (Suc (Suc n)))\<lparr>current_prompt := ''*'', points_won := 1\<rparr>"]
  from mp [OF conjunct1 [OF r'] fixture_point_1] w
  show ?thesis
    by (intro conjI fixture_point_1 w fixture_rally_turn_1 n1 n0 c)
qed

section \<open>The tester\<close>

subsection \<open>The serve list\<close>

lemma first_tokens_from_records:
  "first_tokens recs = Inr toks \<Longrightarrow> t \<in> set toks \<Longrightarrow> \<exists>sh\<in>set recs. sh \<noteq> [] \<and> t = hd sh"
proof (induction recs arbitrary: toks)
  case Nil
  then show ?case by simp
next
  case (Cons sh rest)
  from Cons.prems(1) obtain x xs rest_toks where sh: "sh = x # xs"
    and rest: "first_tokens rest = Inr rest_toks" and toks: "toks = x # rest_toks"
    by (auto split: list.splits sum.splits)
  show ?case
  proof (cases "t = x")
    case True
    with sh show ?thesis by simp
  next
    case False
    with Cons.prems(2) toks have "t \<in> set rest_toks" by simp
    from Cons.IH [OF rest this] show ?thesis by auto
  qed
qed

lemma keep_serves_members:
  "keep_serves toks = Inr serves \<Longrightarrow> t \<in> set serves \<Longrightarrow>
     t \<in> set toks \<and> t \<noteq> [] \<and> hd t \<in> set ''456''"
proof (induction toks arbitrary: serves)
  case Nil
  then show ?case by simp
next
  case (Cons shot rest)
  from Cons.prems(1) obtain c cs rest_serves where shot: "shot = c # cs"
    and rest: "keep_serves rest = Inr rest_serves"
    and serves: "serves = (if c \<in> set ''456'' then shot # rest_serves else rest_serves)"
    by (auto split: list.splits sum.splits)
  show ?case
  proof (cases "t \<in> set rest_serves")
    case True
    from Cons.IH [OF rest this] show ?thesis by simp
  next
    case False
    with Cons.prems(2) serves have "c \<in> set ''456''" "t = shot"
      by (auto split: if_splits)
    with shot show ?thesis by simp
  qed
qed

lemma serves_opponent_members:
  assumes "build_serves_opponent recs = Inr serves" and "t \<in> set serves"
  shows "(\<exists>sh\<in>set recs. sh \<noteq> [] \<and> t = hd sh) \<and> t \<noteq> [] \<and> hd t \<in> set ''456''"
proof -
  from assms(1) obtain toks where a: "first_tokens recs = Inr toks"
    and b: "keep_serves toks = Inr serves"
    by (auto simp: build_serves_opponent_def split: sum.splits)
  from keep_serves_members [OF b assms(2)] first_tokens_from_records [OF a]
  show ?thesis by blast
qed

lemma randint_0_2:
  "random_randint 0 2 g = Inr (if even (g 0) then 0 else 1, advance g)"
  by (auto simp: random_randint_def) presburger+

text \<open>
  C8. Every iteration of the tester's \<^verbatim>\<open>for\<close> loop first chooses the starting prompt, with
  draws of its own, and then plays the point from it. One draw decides who serves: on an
  even draw the prompt is \<open>X\<close>; otherwise a second draw picks an element of the serve list,
  which is the first token of a historical record and starts with 4, 5 or 6.
\<close>

theorem serving_condition_start_prompt:
  assumes "build_serves_opponent (shots_opo_com s) = Inr (serves_opponent s)"
    and "serving_condition s = Inr s'"
  shows "(if even (np_random s 0)
          then current_prompt s' = ''X'' \<and> np_random s' = advance (np_random s)
          else current_prompt s' =
                 serves_opponent s ! (np_random s 1 mod length (serves_opponent s)) \<and>
               current_prompt s' \<in> set (serves_opponent s) \<and>
               np_random s' = advance (advance (np_random s))) \<and>
         (current_prompt s' = ''X'' \<or>
          (\<exists>sh\<in>set (shots_opo_com s). sh \<noteq> [] \<and> current_prompt s' = hd sh) \<and>
          current_prompt s' \<noteq> [] \<and> hd (current_prompt s') \<in> set ''456'') \<and>
         simulate_points is_win (Suc k) s =
           (case point_loop is_win s' of
              None \<Rightarrow> None
            | Some (Inl e) \<Rightarrow> Some (Inl e)
            | Some (Inr s2) \<Rightarrow> simulate_points is_win k s2)"
proof -
  have draw: "(if even (np_random s 0)
          then current_prompt s' = ''X'' \<and> np_random s' = advance (np_random s)
          else current_prompt s' =
                 serves_opponent s ! (np_random s 1 mod length (serves_opponent s)) \<and>
               current_prompt s' \<in> set (serves_opponent s) \<and>
               np_random s' = advance (advance (np_random s)))"
  proof (cases "even (np_random s 0)")
    case True
    with assms(2) show ?thesis
      by (auto simp: serving_condition_def randint_0_2)
  next
    case False
    with assms(2) have ne: "serves_opponent s \<noteq> []"
      by (auto simp: serving_condition_def randint_0_2 random_choice_def split: if_splits)
    with False assms(2) show ?thesis
      by (auto simp: serving_condition_def randint_0_2 random_choice_def advance_def)
  qed
  have "current_prompt s' = ''X'' \<or> current_prompt s' \<in> set (serves_opponent s)"
  proof (cases "even (np_random s 0)")
    case True
    with draw have "current_prompt s' = ''X''" by simp
    then show ?thesis ..
  next
    case False
    from draw have "current_prompt s' =
                 serves_opponent s ! (np_random s 1 mod length (serves_opponent s)) \<and>
               current_prompt s' \<in> set (serves_opponent s) \<and>
               np_random s' = advance (advance (np_random s))"
      unfolding if_not_P [OF False] .
    then have "current_prompt s' \<in> set (serves_opponent s)" by (elim conjE)
    then show ?thesis ..
  qed
  with serves_opponent_members [OF assms(1)]
  have origin: "current_prompt s' = ''X'' \<or>
          (\<exists>sh\<in>set (shots_opo_com s). sh \<noteq> [] \<and> current_prompt s' = hd sh) \<and>
          current_prompt s' \<noteq> [] \<and> hd (current_prompt s') \<in> set ''456''"
    by blast
  from assms(2) have "simulate_points is_win (Suc k) s =
           (case point_loop is_win s' of
              None \<Rightarrow> None
            | Some (Inl e) \<Rightarrow> Some (Inl e)
            | Some (Inr s2) \<Rightarrow> simulate_points is_win k s2)"
    by simp
  with draw origin show ?thesis by blast
qed

theorem serving_condition_start_prompt_witness:
  "build_serves_opponent (shots_opo_com
      (fixture_nb (\<lambda>n. Suc (Suc (Suc n)))\<lparr>current_prompt := ''*'', points_won := 1\<rparr>)) =
     Inr (serves_opponent
      (fixture_nb (\<lambda>n. Suc (Suc (Suc n)))\<lparr>current_prompt := ''*'', points_won := 1\<rparr>)) \<and>
   serving_condition
      (fixture_nb (\<lambda>n. Suc (Suc (Suc n)))\<lparr>current_prompt := ''*'', points_won := 1\<rparr>) =
     Inr (fixture_nb (\<lambda>n. Suc (Suc (Suc (Suc (Suc n)))))
            \<lparr>current_prompt := ''5'', points_won := 1\<rparr>) \<and>
   (\<exists>sh\<in>set (shots_opo_com
        (fixture_nb (\<lambda>n. Suc (Suc (Suc n)))\<lparr>current_prompt := ''*'', points_won := 1\<rparr>)).
      sh \<noteq> [] \<and> ''5'' = hd sh) \<and>
   hd ''5'' \<in> set ''456''"
proof -
  let ?s = "fixture_nb (\<lambda>n. Suc (Suc (Suc n)))\<lparr>current_prompt := ''*'', points_won := 1\<rparr>"
  let ?s' = "fixture_nb (\<lambda>n. Suc (Suc (Suc (Suc (Suc n)))))
               \<lparr>current_prompt := ''5'', points_won := 1\<rparr>"
  have a: "build_serves_opponent (shots_opo_com ?s) = Inr (serves_opponent ?s)"
    by (simp add: build_serves_opponent_def fixture_nb_def)
  have p: "current_prompt ?s' = ''5''"
    by simp
  have nx: "''5'' \<noteq> ''X''"
    by simp
  note r = serving_condition_start_prompt [OF a fixture_serving_2, unfolded p]
  from conjunct1 [OF conjunct2 [OF r]]
  have m: "(\<exists>sh\<in>set (shots_opo_com ?s). sh \<noteq> [] \<and> ''5'' = hd sh) \<and>
          ''5'' \<noteq> [] \<and> hd ''5'' \<in> set ''456''"
  proof (rule disjE)
    assume "''5'' = ''X''"
    with nx show ?thesis by (rule notE)
  next
    assume "(\<exists>sh\<in>set (shots_opo_com ?s). sh \<noteq> [] \<and> ''5'' = hd sh) \<and>
          ''5'' \<noteq> [] \<and> hd ''5'' \<in> set ''456''"
    then show ?thesis .
  qed
  show ?thesis
    by (intro conjI a fixture_serving_2 conjunct1 [OF m] conjunct2 [OF conjunct2 [OF m]])
qed

subsection \<open>The counters\<close>

text \<open>
  C10. A point that ends raises exactly one of the two counters by exactly one; so after
  the loop has played \<open>N\<close> points, starting from two zero counters, the counters add up to
  \<open>N\<close>. Neither one point nor the loop changes the table, the policy or the serve list.
\<close>

theorem counters_account_for_every_point:
  "(point_loop is_win s = Some (Inr s1) \<longrightarrow>
      (points_won s1 = points_won s + 1 \<and> points_lost s1 = points_lost s \<or>
       points_won s1 = points_won s \<and> points_lost s1 = points_lost s + 1) \<and>
      Model s1 = Model s \<and> example_policy s1 = example_policy s \<and>
      serves_opponent s1 = serves_opponent s) \<and>
   (points_won s = 0 \<and> points_lost s = 0 \<and> simulate_points is_win N s = Some (Inr s2) \<longrightarrow>
      points_won s2 + points_lost s2 = int N \<and>
      Model s2 = Model s \<and> example_policy s2 = example_policy s \<and>
      serves_opponent s2 = serves_opponent s)"
proof (rule conjI; rule impI)
  assume "point_loop is_win s = Some (Inr s1)"
  from point_loop_effect [OF this] have "point_post is_win s s1" by simp
  then show "(points_won s1 = points_won s + 1 \<and> points_lost s1 = points_lost s \<or>
       points_won s1 = points_won s \<and> points_lost s1 = points_lost s + 1) \<and>
      Model s1 = Model s \<and> example_policy s1 = example_policy s \<and>
      serves_opponent s1 = serves_opponent s"
    by (auto simp: point_post_def tables_kept_def)
next
  assume a: "points_won s = 0 \<and> points_lost s = 0 \<and> simulate_points is_win N s = Some (Inr s2)"
  then have "simulate_points is_win N s = Some (Inr s2)" by simp
  from simulate_points_effect [OF this] a
  show "points_won s2 + points_lost s2 = int N \<and>
      Model s2 = Model s \<and> example_policy s2 = example_policy s \<and>
      serves_opponent s2 = serves_opponent s"
    by (simp add: tables_kept_def)
qed

theorem counters_account_for_every_point_witness:
  "point_loop fixture_is_win (fixture_nb (\<lambda>n. Suc n)) =
     Some (Inr (fixture_nb (\<lambda>n. Suc (Suc (Suc n)))\<lparr>current_prompt := ''*'', points_won := 1\<rparr>)) \<and>
   Model (fixture_nb (\<lambda>n. Suc (Suc (Suc n)))\<lparr>current_prompt := ''*'', points_won := 1\<rparr>) =
     Model (fixture_nb (\<lambda>n. Suc n)) \<and>
   points_won (fixture_nb (\<lambda>n. n)) = 0 \<and> points_lost (fixture_nb (\<lambda>n. n)) = 0 \<and>
   simulate_points fixture_is_win 2 (fixture_nb (\<lambda>n. n)) =
     Some (Inr (fixture_nb (\<lambda>n. Suc (Suc (Suc (Suc (Suc (Suc (Suc n)))))))
            \<lparr>current_prompt := ''@'', points_won := 1, points_lost := 1\<rparr>)) \<and>
   points_won (fixture_nb (\<lambda>n. Suc (Suc (Suc (Suc (Suc (Suc (Suc n)))))))
            \<lparr>current_prompt := ''@'', points_won := 1, points_lost := 1\<rparr>) +
   points_lost (fixture_nb (\<lambda>n. Suc (Suc (Suc (Suc (Suc (Suc (Suc n)))))))
            \<lparr>current_prompt := ''@'', points_won := 1, points_lost := 1\<rparr>) = int 2"
proof -
  have w: "points_won (fixture_nb (\<lambda>n. n)) = 0" and l: "points_lost (fixture_nb (\<lambda>n. n)) = 0"
    by (simp_all add: fixture_nb_def)
  note r = counters_account_for_every_point
    [of fixture_is_win "fixture_nb (\<lambda>n. Suc n)"
      "fixture_nb (\<lambda>n. Suc (Suc (Suc n)))\<lparr>current_prompt := ''*'', points_won := 1\<rparr>"]
  note r1 = mp [OF conjunct1 [OF r] fixture_point_1]
  note q = counters_account_for_every_point
    [of fixture_is_win "fixture_nb (\<lambda>n. n)" _ 2
      "fixture_nb (\<lambda>n. Suc (Suc (Suc (Suc (Suc (Suc (Suc n)))))))
            \<lparr>current_prompt := ''@'', points_won := 1, points_lost := 1\<rparr>"]
  have q1: "points_won (fixture_nb (\<lambda>n. Suc (Suc (Suc (Suc (Suc (Suc (Suc n)))))))
            \<lparr>current_prompt := ''@'', points_won := 1, points_lost := 1\<rparr>) +
   points_lost (fixture_nb (\<lambda>n. Suc (Suc (Suc (Suc (Suc (Suc (Suc n)))))))
            \<lparr>current_prompt := ''@'', points_won := 1, points_lost := 1\<rparr>) = int 2"
    by (rule conjunct1 [OF mp [OF conjunct2 [OF q]]]) (intro conjI w l fixture_run)
  show ?thesis
    by (intro conjI fixture_point_1 conjunct1 [OF conjunct2 [OF r1]] w l fixture_run q1)
qed

subsection \<open>The report\<close>

text \<open>
  C7. When the loop has played its points, at least one, the cell reports
  \<open>points_won / (points_lost + points_won)\<close> over the counters the loop accumulated (the
  exact quotient; the counters add up to the number of points played), and the value
  lies between 0 and 1.
\<close>

theorem tester_reports_win_rate:
  assumes "build_serves_opponent (shots_opo_com s) = Inr serves"
    and "simulate_points is_win (nat (number_of_points_played s))
           (s\<lparr>serves_opponent := serves, points_won := 0, points_lost := 0\<rparr>) = Some (Inr s')"
    and "1 \<le> number_of_points_played s"
  shows "tester is_win s =
           Some (Inr (real_of_int (points_won s') / real_of_int (points_lost s' + points_won s'),
                      s')) \<and>
         points_won s' + points_lost s' = number_of_points_played s \<and>
         0 \<le> real_of_int (points_won s') / real_of_int (points_lost s' + points_won s') \<and>
         real_of_int (points_won s') / real_of_int (points_lost s' + points_won s') \<le> 1"
proof -
  from simulate_points_effect [OF assms(2)] assms(3)
  have w: "0 \<le> points_won s'" and l: "0 \<le> points_lost s'"
    and sum: "points_won s' + points_lost s' = number_of_points_played s"
    by simp_all
  from sum assms(3) have pos: "0 < points_lost s' + points_won s'" by simp
  then have "win_rate s' =
      Inr (real_of_int (points_won s') / real_of_int (points_lost s' + points_won s'))"
    by (simp add: win_rate_def)
  with assms(1,2) have t: "tester is_win s =
      Some (Inr (real_of_int (points_won s') / real_of_int (points_lost s' + points_won s'),
                 s'))"
    by (simp add: tester_def)
  from w pos have lo:
    "0 \<le> real_of_int (points_won s') / real_of_int (points_lost s' + points_won s')"
    by simp
  from l pos have hi:
    "real_of_int (points_won s') / real_of_int (points_lost s' + points_won s') \<le> 1"
    by simp
  from t sum lo hi show ?thesis by blast
qed

theorem tester_reports_win_rate_witness:
  "build_serves_opponent (shots_opo_com (fixture_nb (\<lambda>n. n))) = Inr [''5'', ''6''] \<and>
   simulate_points fixture_is_win (nat (number_of_points_played (fixture_nb (\<lambda>n. n))))
     (fixture_nb (\<lambda>n. n)\<lparr>serves_opponent := [''5'', ''6''], points_won := 0, points_lost := 0\<rparr>) =
     Some (Inr (fixture_nb (\<lambda>n. Suc (Suc (Suc (Suc (Suc (Suc (Suc n)))))))
            \<lparr>current_prompt := ''@'', points_won := 1, points_lost := 1\<rparr>)) \<and>
   1 \<le> number_of_points_played (fixture_nb (\<lambda>n. n)) \<and>
   tester fixture_is_win (fixture_nb (\<lambda>n. n)) =
     Some (Inr (1 / 2, fixture_nb (\<lambda>n. Suc (Suc (Suc (Suc (Suc (Suc (Suc n)))))))
            \<lparr>current_prompt := ''@'', points_won := 1, points_lost := 1\<rparr>))"
proof -
  let ?s' = "fixture_nb (\<lambda>n. Suc (Suc (Suc (Suc (Suc (Suc (Suc n)))))))
            \<lparr>current_prompt := ''@'', points_won := 1, points_lost := 1\<rparr>"
  have n: "nat (number_of_points_played (fixture_nb (\<lambda>n. n))) = 2"
    by (simp add: fixture_nb_def)
  have b: "simulate_points fixture_is_win (nat (number_of_points_played (fixture_nb (\<lambda>n. n))))
     (fixture_nb (\<lambda>n. n)\<lparr>serves_opponent := [''5'', ''6''], points_won := 0, points_lost := 0\<rparr>) =
     Some (Inr ?s')"
    unfolding n fixture_reset by (rule fixture_run)
  have c: "1 \<le> number_of_points_played (fixture_nb (\<lambda>n. n))"
    by (simp add: fixture_nb_def)
  have q: "real_of_int (points_won ?s') / real_of_int (points_lost ?s' + points_won ?s') = 1 / 2"
    by simp
  note r = tester_reports_win_rate [OF fixture_serves b c, unfolded q]
  show ?thesis
    by (intro conjI fixture_serves b c conjunct1 [OF r])
qed

subsection \<open>Two runs\<close>

lemma serving_condition_ignores_prompt:
  "serving_condition (s\<lparr>current_prompt := p\<rparr>) = serving_condition s"
  by (simp add: serving_condition_def split: sum.splits prod.splits)

lemma simulate_points_ignores_prompt:
  "0 < k \<Longrightarrow> simulate_points is_win k (s\<lparr>current_prompt := p\<rparr>) = simulate_points is_win k s"
  by (cases k) (simp_all add: serving_condition_ignores_prompt)

text \<open>
  C9. The generator state stands for the seed. Two runs of the tester cell that start with
  the same generator state, dataset (table and historical records), vocabularies, policy,
  number of points and threshold give the same result: the same report and the same final
  notebook, so the same two counters, or the same exception, or both never end. Whatever
  an earlier run left in the serve list, the counters and the current prompt has no
  influence.
\<close>

theorem tester_deterministic:
  assumes "np_random s1 = np_random s2"
    and "Model s1 = Model s2" and "shots_opo_com s1 = shots_opo_com s2"
    and "poss_prompts s1 = poss_prompts s2" and "all_shots s1 = all_shots s2"
    and "example_policy s1 = example_policy s2"
    and "number_of_points_played s1 = number_of_points_played s2"
    and "threshold s1 = threshold s2"
  shows "tester is_win s1 = tester is_win s2"
proof (cases "build_serves_opponent (shots_opo_com s1)")
  case (Inl e)
  with assms(3) show ?thesis by (simp add: tester_def)
next
  case (Inr serves)
  let ?t1 = "s1\<lparr>serves_opponent := serves, points_won := 0, points_lost := 0\<rparr>"
  let ?t2 = "s2\<lparr>serves_opponent := serves, points_won := 0, points_lost := 0\<rparr>"
  have eq: "?t2 = ?t1\<lparr>current_prompt := current_prompt s2\<rparr>"
    by (rule notebook.equality) (simp_all add: assms)
  show ?thesis
  proof (cases "0 < nat (number_of_points_played s1)")
    case True
    then have "simulate_points is_win (nat (number_of_points_played s1)) ?t2 =
        simulate_points is_win (nat (number_of_points_played s1)) ?t1"
      unfolding eq by (rule simulate_points_ignores_prompt)
    with Inr assms(3,7) show ?thesis by (simp add: tester_def)
  next
    case False
    then have "nat (number_of_points_played s1) = 0" by simp
    with Inr assms(3,7) show ?thesis by (simp add: tester_def win_rate_def)
  qed
qed

theorem tester_deterministic_witness:
  "np_random (fixture_nb (\<lambda>n. n)) =
     np_random (fixture_nb (\<lambda>n. n)
       \<lparr>serves_opponent := [], points_won := 40, points_lost := 2, current_prompt := ''f1''\<rparr>) \<and>
   Model (fixture_nb (\<lambda>n. n)) =
     Model (fixture_nb (\<lambda>n. n)
       \<lparr>serves_opponent := [], points_won := 40, points_lost := 2, current_prompt := ''f1''\<rparr>) \<and>
   shots_opo_com (fixture_nb (\<lambda>n. n)) =
     shots_opo_com (fixture_nb (\<lambda>n. n)
       \<lparr>serves_opponent := [], points_won := 40, points_lost := 2, current_prompt := ''f1''\<rparr>) \<and>
   poss_prompts (fixture_nb (\<lambda>n. n)) =
     poss_prompts (fixture_nb (\<lambda>n. n)
       \<lparr>serves_opponent := [], points_won := 40, points_lost := 2, current_prompt := ''f1''\<rparr>) \<and>
   all_shots (fixture_nb (\<lambda>n. n)) =
     all_shots (fixture_nb (\<lambda>n. n)
       \<lparr>serves_opponent := [], points_won := 40, points_lost := 2, current_prompt := ''f1''\<rparr>) \<and>
   example_policy (fixture_nb (\<lambda>n. n)) =
     example_policy (fixture_nb (\<lambda>n. n)
       \<lparr>serves_opponent := [], points_won := 40, points_lost := 2, current_prompt := ''f1''\<rparr>) \<and>
   number_of_points_played (fixture_nb (\<lambda>n. n)) =
     number_of_points_played (fixture_nb (\<lambda>n. n)
       \<lparr>serves_opponent := [], points_won := 40, points_lost := 2, current_prompt := ''f1''\<rparr>) \<and>
   threshold (fixture_nb (\<lambda>n. n)) =
     threshold (fixture_nb (\<lambda>n. n)
       \<lparr>serves_opponent := [], points_won := 40, points_lost := 2, current_prompt := ''f1''\<rparr>) \<and>
   tester fixture_is_win (fixture_nb (\<lambda>n. n)) =
     tester fixture_is_win (fixture_nb (\<lambda>n. n)
       \<lparr>serves_opponent := [], points_won := 40, points_lost := 2, current_prompt := ''f1''\<rparr>)"
proof -
  let ?s2 = "fixture_nb (\<lambda>n. n)
       \<lparr>serves_opponent := [], points_won := 40, points_lost := 2, current_prompt := ''f1''\<rparr>"
  have a: "np_random (fixture_nb (\<lambda>n. n)) = np_random ?s2"
    and b: "Model (fixture_nb (\<lambda>n. n)) = Model ?s2"
    and c: "shots_opo_com (fixture_nb (\<lambda>n. n)) = shots_opo_com ?s2"
    and d: "poss_prompts (fixture_nb (\<lambda>n. n)) = poss_prompts ?s2"
    and e: "all_shots (fixture_nb (\<lambda>n. n)) = all_shots ?s2"
    and f: "example_policy (fixture_nb (\<lambda>n. n)) = example_policy ?s2"
    and g: "number_of_points_played (fixture_nb (\<lambda>n. n)) = number_of_points_played ?s2"
    and h: "threshold (fixture_nb (\<lambda>n. n)) = threshold ?s2"
    by simp_all
  show ?thesis
    by (intro conjI a b c d e f g h tester_deterministic [OF a b c d e f g h])
qed

end
